theory Spec2Isabelle
  imports Main "HOL-Library.Sublist"
begin

section \<open>Python strings\<close>

text \<open>
  Text is modelled as \<^typ>\<open>string\<close>: a list of characters, where the character
  with code \<open>n\<close> stands for the code point \<open>n\<close>. The type has the 256 code points
  from 0 to 255, that is ASCII and the Latin-1 supplement with its accented letters, and
  the tables below give Python's classification of every one of them.

  \<open>str.strip\<close>, \<open>str.isspace\<close> and the regular-expression class \<open>\s\<close> agree:
  whitespace is the codes 9 to 13 and 28 to 32, the next-line control U+0085 and the
  no-break space U+00A0.
\<close>

definition whitespace_chars :: "char list" where
  "whitespace_chars =
     [CHR 0x09, CHR 0x0A, CHR 0x0B, CHR 0x0C, CHR 0x0D,
      CHR 0x1C, CHR 0x1D, CHR 0x1E, CHR 0x1F, CHR 0x20,
      CHR 0x85, CHR 0xA0]"

definition is_space :: "char \<Rightarrow> bool" where
  "is_space c = (c \<in> set whitespace_chars)"

definition is_digit :: "char \<Rightarrow> bool" where
  "is_digit c = (c \<in> set ''0123456789'')"

definition is_lower_letter :: "char \<Rightarrow> bool" where
  "is_lower_letter c = (c \<in> set ''abcdefghijklmnopqrstuvwxyz'')"

definition is_upper_letter :: "char \<Rightarrow> bool" where
  "is_upper_letter c = (c \<in> set ''ABCDEFGHIJKLMNOPQRSTUVWXYZ'')"

text \<open>
  The capital letters of the Latin-1 supplement (U+00C0 to U+00DE without the
  multiplication sign U+00D7) and their small letters (U+00E0 to U+00FE without the
  division sign U+00F7), in the same order.
\<close>

definition latin1_upper :: "char list" where
  "latin1_upper =
     [CHR 0xC0, CHR 0xC1, CHR 0xC2, CHR 0xC3, CHR 0xC4, CHR 0xC5, CHR 0xC6, CHR 0xC7,
      CHR 0xC8, CHR 0xC9, CHR 0xCA, CHR 0xCB, CHR 0xCC, CHR 0xCD, CHR 0xCE, CHR 0xCF,
      CHR 0xD0, CHR 0xD1, CHR 0xD2, CHR 0xD3, CHR 0xD4, CHR 0xD5, CHR 0xD6, CHR 0xD8,
      CHR 0xD9, CHR 0xDA, CHR 0xDB, CHR 0xDC, CHR 0xDD, CHR 0xDE]"

definition latin1_lower :: "char list" where
  "latin1_lower =
     [CHR 0xE0, CHR 0xE1, CHR 0xE2, CHR 0xE3, CHR 0xE4, CHR 0xE5, CHR 0xE6, CHR 0xE7,
      CHR 0xE8, CHR 0xE9, CHR 0xEA, CHR 0xEB, CHR 0xEC, CHR 0xED, CHR 0xEE, CHR 0xEF,
      CHR 0xF0, CHR 0xF1, CHR 0xF2, CHR 0xF3, CHR 0xF4, CHR 0xF5, CHR 0xF6, CHR 0xF8,
      CHR 0xF9, CHR 0xFA, CHR 0xFB, CHR 0xFC, CHR 0xFD, CHR 0xFE]"

text \<open>
  The other characters above ASCII that are alphanumeric for Python: the ordinal
  indicators U+00AA and U+00BA, the superscript digits U+00B2, U+00B3 and U+00B9, the
  micro sign U+00B5, the fractions U+00BC to U+00BE, the sharp s U+00DF and the y with
  diaeresis U+00FF.
\<close>

definition latin1_other_alnum :: "char list" where
  "latin1_other_alnum =
     [CHR 0xAA, CHR 0xB2, CHR 0xB3, CHR 0xB5, CHR 0xB9, CHR 0xBA,
      CHR 0xBC, CHR 0xBD, CHR 0xBE, CHR 0xDF, CHR 0xFF]"

text \<open>
  The class \<open>\w\<close>, which also decides the word boundary \<open>\b\<close>: the alphanumeric
  characters and the underscore.
\<close>

definition is_word :: "char \<Rightarrow> bool" where
  "is_word c =
     (is_lower_letter c \<or> is_upper_letter c \<or> is_digit c \<or> c = CHR ''_''
      \<or> c \<in> set latin1_upper \<or> c \<in> set latin1_lower \<or> c \<in> set latin1_other_alnum)"

text \<open>
  The lowercase form of a character: \<open>A\<close>..\<open>Z\<close> and the capital letters of the
  Latin-1 supplement go to their small letters, every other character stays.
\<close>

definition lower_char :: "char \<Rightarrow> char" where
  "lower_char c =
     (case map_of (zip (''ABCDEFGHIJKLMNOPQRSTUVWXYZ'' @ latin1_upper)
                       (''abcdefghijklmnopqrstuvwxyz'' @ latin1_lower)) c of
        None \<Rightarrow> c
      | Some d \<Rightarrow> d)"

text \<open>\<open>s.lower()\<close>\<close>

definition lower :: "string \<Rightarrow> string" where
  "lower s = map lower_char s"

text \<open>\<open>s.strip()\<close>: leading and trailing whitespace removed.\<close>

definition strip :: "string \<Rightarrow> string" where
  "strip s = rev (dropWhile is_space (rev (dropWhile is_space s)))"

text \<open>\<open>a in b\<close> on strings: \<open>a\<close> occurs in \<open>b\<close> as a contiguous substring.\<close>

fun str_in :: "string \<Rightarrow> string \<Rightarrow> bool" where
  "str_in a [] = (a = [])"
| "str_in a (c # cs) = (prefix a (c # cs) \<or> str_in a cs)"

text \<open>
  \<open>s.replace(old, new)\<close>: the non-overlapping occurrences of \<open>old\<close> are replaced
  from left to right; an empty \<open>old\<close> matches before every character and at the end.
\<close>

function replace :: "string \<Rightarrow> string \<Rightarrow> string \<Rightarrow> string" where
  "replace old new [] = (if old = [] then new else [])"
| "replace old new (c # cs) =
     (if old = [] then new @ c # replace old new cs
      else if prefix old (c # cs) then new @ replace old new (drop (length old) (c # cs))
      else c # replace old new cs)"
  by pat_completeness auto
termination
  by (relation "measure (\<lambda>(old, new, s). length s)") auto

section \<open>Regular expressions: the fragment of \<open>re\<close> that the service uses\<close>

text \<open>
  The patterns of the service are built from single-character matchers, greedy repetition
  of such a matcher, greedy options, concatenation, capture groups and the word boundary
  \<open>\b\<close>. A pattern is kept as a syntax tree; the pattern text of the source is quoted
  next to each tree.
\<close>

datatype cls_item = ILit char | IRange char char | ISpace

datatype atom =
    Lit char                  \<comment> \<open>an escaped or ordinary character\<close>
  | AnyChar                   \<comment> \<open>\<open>.\<close>: any character but a newline\<close>
  | Digit                     \<comment> \<open>\<open>\d\<close>\<close>
  | Space                     \<comment> \<open>\<open>\s\<close>\<close>
  | Bracket "cls_item list"   \<comment> \<open>\<open>[...]\<close>\<close>

datatype regex =
    Eps
  | Atom atom
  | Star atom                 \<comment> \<open>\<open>a*\<close>, greedy\<close>
  | Opt regex                 \<comment> \<open>\<open>(?:r)?\<close>, greedy\<close>
  | Seq regex regex
  | Group nat regex           \<comment> \<open>\<open>(r)\<close>, the capture group of that number\<close>
  | WordB                     \<comment> \<open>\<open>\b\<close>\<close>

text \<open>\<open>a+\<close> is \<open>aa*\<close>, with the same order of alternatives.\<close>

definition Plus :: "atom \<Rightarrow> regex" where
  "Plus a = Seq (Atom a) (Star a)"

fun item_ok :: "cls_item \<Rightarrow> char \<Rightarrow> bool" where
  "item_ok (ILit c) d = (c = d)"
| "item_ok (IRange lo hi) d =
     ((of_char lo :: nat) \<le> of_char d \<and> (of_char d :: nat) \<le> of_char hi)"
| "item_ok ISpace d = is_space d"

text \<open>
  Under \<open>re.IGNORECASE\<close> an item of a class accepts a character when it holds a
  character with the same lowercase form.
\<close>

fun item_ok_ci :: "cls_item \<Rightarrow> char \<Rightarrow> bool" where
  "item_ok_ci (ILit c) d = (lower_char c = lower_char d)"
| "item_ok_ci (IRange lo hi) d =
     list_ex (\<lambda>n. lower_char (char_of n) = lower_char d) [of_char lo ..< Suc (of_char hi)]"
| "item_ok_ci ISpace d = is_space d"

text \<open>
  \<open>atom_ok ic a d\<close>: the matcher \<open>a\<close> accepts the character \<open>d\<close>; \<open>ic\<close> is the
  flag \<open>re.IGNORECASE\<close>, under which characters are compared by their lowercase forms.
\<close>

fun atom_ok :: "bool \<Rightarrow> atom \<Rightarrow> char \<Rightarrow> bool" where
  "atom_ok ic (Lit c) d = (if ic then lower_char c = lower_char d else c = d)"
| "atom_ok ic AnyChar d = (d \<noteq> CHR 0x0A)"
| "atom_ok ic Digit d = is_digit d"
| "atom_ok ic Space d = is_space d"
| "atom_ok ic (Bracket its) d =
     (if ic then list_ex (\<lambda>it. item_ok_ci it d) its
      else list_ex (\<lambda>it. item_ok it d) its)"

text \<open>
  The state of a match attempt: the text before the current position, the text from it on,
  and the groups captured so far.
\<close>

type_synonym mstate = "string \<times> string \<times> (nat \<rightharpoonup> string)"

text \<open>
  The positions a greedy repetition can stop at, the longest first: the order in which a
  backtracking matcher tries them.
\<close>

fun star_states :: "(char \<Rightarrow> bool) \<Rightarrow> string \<Rightarrow> string \<Rightarrow> (string \<times> string) list" where
  "star_states p pre [] = [(pre, [])]"
| "star_states p pre (c # cs) =
     (if p c then star_states p (pre @ [c]) cs @ [(pre, c # cs)] else [(pre, c # cs)])"

definition at_boundary :: "string \<Rightarrow> string \<Rightarrow> bool" where
  "at_boundary pre rest =
     ((pre \<noteq> [] \<and> is_word (last pre)) \<noteq> (rest \<noteq> [] \<and> is_word (hd rest)))"

text \<open>
  \<open>rmatch ic r st\<close>: every way the pattern \<open>r\<close> matches from the state \<open>st\<close>, in the
  order a backtracking matcher finds them; the head of the list is the match that
  \<open>re\<close> reports at that starting position.
\<close>

fun rmatch :: "bool \<Rightarrow> regex \<Rightarrow> mstate \<Rightarrow> mstate list" where
  "rmatch ic Eps st = [st]"
| "rmatch ic (Atom a) (pre, rest, g) =
     (case rest of
        [] \<Rightarrow> []
      | c # cs \<Rightarrow> if atom_ok ic a c then [(pre @ [c], cs, g)] else [])"
| "rmatch ic (Star a) (pre, rest, g) =
     map (\<lambda>(pre', rest'). (pre', rest', g)) (star_states (atom_ok ic a) pre rest)"
| "rmatch ic (Opt r) st = rmatch ic r st @ [st]"
| "rmatch ic (Seq r1 r2) st = concat (map (rmatch ic r2) (rmatch ic r1 st))"
| "rmatch ic (Group k r) (pre, rest, g) =
     map (\<lambda>(pre', rest', g'). (pre', rest', g'(k \<mapsto> drop (length pre) pre')))
       (rmatch ic r (pre, rest, g))"
| "rmatch ic WordB (pre, rest, g) = (if at_boundary pre rest then [(pre, rest, g)] else [])"

text \<open>The match object: \<open>group(0)\<close> and the numbered groups.\<close>

record match_obj =
  group0 :: string
  groups :: "nat \<rightharpoonup> string"

definition match_at :: "bool \<Rightarrow> regex \<Rightarrow> string \<Rightarrow> string \<Rightarrow> match_obj option" where
  "match_at ic r pre rest =
     (case rmatch ic r (pre, rest, Map.empty) of
        [] \<Rightarrow> None
      | (pre', rest', g) # _ \<Rightarrow> Some \<lparr>group0 = drop (length pre) pre', groups = g\<rparr>)"

text \<open>\<open>re.search\<close>: the match at the leftmost starting position that has one.\<close>

fun search_from :: "bool \<Rightarrow> regex \<Rightarrow> string \<Rightarrow> string \<Rightarrow> match_obj option" where
  "search_from ic r pre [] = match_at ic r pre []"
| "search_from ic r pre (c # cs) =
     (case match_at ic r pre (c # cs) of
        None \<Rightarrow> search_from ic r (pre @ [c]) cs
      | Some m \<Rightarrow> Some m)"

definition re_search :: "bool \<Rightarrow> regex \<Rightarrow> string \<Rightarrow> match_obj option" where
  "re_search ic r s = search_from ic r [] s"

text \<open>
  \<open>re.escape(s)\<close>, read as a pattern: the characters of \<open>s\<close>, each standing for itself.
\<close>

definition re_escape :: "string \<Rightarrow> regex" where
  "re_escape s = foldr (\<lambda>c r. Seq (Atom (Lit c)) r) s Eps"

text \<open>
  A string of digits and dots read as a pattern (the \<open>number\<close> that
  \<open>_check_net_contents\<close> puts into its pattern without escaping it): a digit stands for
  itself, a dot for any character but a newline.
\<close>

definition number_pattern :: "string \<Rightarrow> regex" where
  "number_pattern s =
     foldr (\<lambda>c r. Seq (Atom (if c = CHR ''.'' then AnyChar else Lit c)) r) s Eps"

section \<open>The verification service (\<open>verification_service.py\<close>)\<close>

text \<open>
  The result of one field check is a dictionary with the keys \<open>match\<close>, \<open>expected\<close>
  and \<open>found\<close>, and with the key \<open>error\<close> in some branches only. In the record,
  \<open>found = None\<close> is Python's \<open>None\<close> and \<open>error = None\<close> says that the
  dictionary has no key \<open>error\<close>.
\<close>

record check_result =
  match :: bool
  expected :: string
  found :: "string option"
  error :: "string option"

text \<open>
  An exception is raised as a value: its class and the text that \<open>str(e)\<close> gives.
  The classes are the ones the handlers of the program tell apart or that its own
  statements can raise; every one of them derives from \<open>Exception\<close>.
\<close>

datatype exc_class = TesseractNotFoundError | KeyError | TypeError | AttributeError | OtherException

datatype py_exception = Exc exc_class string

definition normalize_text :: "string \<Rightarrow> string" where
  "normalize_text text = strip (lower text)"

definition quoted :: "string \<Rightarrow> string" where
  "quoted s = CHR 0x27 # s @ [CHR 0x27]"

definition check_brand_name :: "string \<Rightarrow> string \<Rightarrow> check_result" where
  "check_brand_name brand_name normalized_ocr =
     (if brand_name = [] then
        \<lparr>match = False, expected = [], found = None,
         error = Some ''Brand name not provided in form''\<rparr>
      else
        let normalized_brand = normalize_text brand_name in
        if str_in normalized_brand normalized_ocr then
          \<lparr>match = True, expected = brand_name, found = Some normalized_brand, error = None\<rparr>
        else
          \<lparr>match = False, expected = brand_name, found = None,
           error = Some (''Brand name '' @ quoted brand_name @ '' not found in label'')\<rparr>)"

definition check_product_type :: "string \<Rightarrow> string \<Rightarrow> check_result" where
  "check_product_type product_type normalized_ocr =
     (if product_type = [] then
        \<lparr>match = False, expected = [], found = None,
         error = Some ''Product type not provided in form''\<rparr>
      else
        let normalized_type = normalize_text product_type in
        if str_in normalized_type normalized_ocr then
          \<lparr>match = True, expected = product_type, found = Some normalized_type, error = None\<rparr>
        else
          \<lparr>match = False, expected = product_type, found = None,
           error = Some (''Product type '' @ quoted product_type @ '' not found in label'')\<rparr>)"

text \<open>\<open>abv_clean = abv.strip().replace('%', '').strip()\<close>\<close>

definition abv_clean :: "string \<Rightarrow> string" where
  "abv_clean abv = strip (replace ''%'' [] (strip abv))"

text \<open>\<open>pattern = r'\b' + re.escape(abv_clean) + r'(?:\.0)?\s*%'\<close>\<close>

definition abv_pattern :: "string \<Rightarrow> regex" where
  "abv_pattern abv =
     Seq WordB
       (Seq (re_escape (abv_clean abv))
          (Seq (Opt (Seq (Atom (Lit CHR ''.'')) (Atom (Lit CHR ''0''))))
             (Seq (Star Space) (Atom (Lit CHR ''%'')))))"

definition check_abv :: "string \<Rightarrow> string \<Rightarrow> check_result" where
  "check_abv abv normalized_ocr =
     (if abv = [] then
        \<lparr>match = False, expected = [], found = None, error = Some ''ABV not provided in form''\<rparr>
      else
        case re_search False (abv_pattern abv) normalized_ocr of
          Some m \<Rightarrow>
            \<lparr>match = True, expected = abv @ ''%'', found = Some (group0 m), error = None\<rparr>
        | None \<Rightarrow>
            \<lparr>match = False, expected = abv @ ''%'', found = None,
             error = Some (''ABV '' @ quoted (abv @ ''%'') @ '' not found in label'')\<rparr>)"

text \<open>\<open>r'(\d+(?:\.\d+)?)\s*([a-z.\s]+)'\<close>\<close>

definition volume_regex :: regex where
  "volume_regex =
     Seq (Group 1 (Seq (Plus Digit) (Opt (Seq (Atom (Lit CHR ''.'')) (Plus Digit)))))
       (Seq (Star Space)
          (Group 2 (Plus (Bracket [IRange CHR ''a'' CHR ''z'', ILit CHR ''.'', ISpace]))))"

text \<open>\<open>pattern = number + r'\s*' + re.escape(unit)\<close>\<close>

definition net_pattern :: "string \<Rightarrow> string \<Rightarrow> regex" where
  "net_pattern number unit = Seq (number_pattern number) (Seq (Star Space) (re_escape unit))"

text \<open>
  A group that took no part in a match is \<open>None\<close>: \<open>group(2).strip()\<close> would then
  raise \<open>AttributeError\<close> and \<open>number + r'\s*'\<close> would raise \<open>TypeError\<close>.
\<close>

definition check_net_contents :: "string \<Rightarrow> string \<Rightarrow> py_exception + check_result" where
  "check_net_contents net_contents normalized_ocr =
     (if net_contents = [] then
        Inr \<lparr>match = True, expected = ''Not provided'', found = Some ''Not checked'',
             error = None\<rparr>
      else
        let normalized_contents = normalize_text net_contents in
        case re_search False volume_regex normalized_contents of
          None \<Rightarrow>
            Inr \<lparr>match = False, expected = net_contents, found = None,
                 error = Some ''Could not parse volume format from form input''\<rparr>
        | Some volume_match \<Rightarrow>
            (case groups volume_match 2 of
               None \<Rightarrow>
                 Inl (Exc AttributeError
                        (quoted ''NoneType'' @ '' object has no attribute '' @ quoted ''strip''))
             | Some unit_raw \<Rightarrow>
                 (case groups volume_match 1 of
                    None \<Rightarrow>
                      Inl (Exc TypeError
                             (''unsupported operand type(s) for +: '' @ quoted ''NoneType''
                              @ '' and '' @ quoted ''str''))
                  | Some number \<Rightarrow>
                      let unit = strip unit_raw in
                      (case re_search True (net_pattern number unit) normalized_ocr of
                         Some m \<Rightarrow>
                           Inr \<lparr>match = True, expected = net_contents,
                                found = Some (group0 m), error = None\<rparr>
                       | None \<Rightarrow>
                           Inr \<lparr>match = False, expected = net_contents, found = None,
                                error = Some (''Net contents '' @ quoted net_contents
                                              @ '' not found in label'')\<rparr>))))"

definition check_government_warning :: "string \<Rightarrow> check_result" where
  "check_government_warning normalized_ocr =
     (if str_in ''government warning'' normalized_ocr then
        \<lparr>match = True, expected = ''Government Warning Present'',
         found = Some ''GOVERNMENT WARNING'', error = None\<rparr>
      else
        \<lparr>match = False, expected = ''Government Warning Present'', found = None,
         error = Some ''Government warning statement not found on label''\<rparr>)"

text \<open>
  The dictionary returned by \<open>verify_label\<close>. Its \<open>details\<close> is a dictionary from
  field names to check results, whose keys depend on the request.
\<close>

record verification_result =
  overall_match :: bool
  details :: "string \<rightharpoonup> check_result"
  ocr_text :: string

text \<open>\<open>form_data.get(key, '')\<close>\<close>

definition form_get :: "(string \<rightharpoonup> string) \<Rightarrow> string \<Rightarrow> string" where
  "form_get form_data key = (case form_data key of None \<Rightarrow> [] | Some v \<Rightarrow> v)"

text \<open>
  The loop over \<open>required_fields\<close>: the first field whose check failed sets
  \<open>overall_match\<close> to false and leaves the loop; \<open>details[field]\<close> raises
  \<open>KeyError\<close> for a missing key.
\<close>

fun required_loop ::
  "(string \<rightharpoonup> check_result) \<Rightarrow> string list \<Rightarrow> bool \<Rightarrow> py_exception + bool" where
  "required_loop d [] om = Inr om"
| "required_loop d (field # others) om =
     (case d field of
        None \<Rightarrow> Inl (Exc KeyError (quoted field))
      | Some r \<Rightarrow> if \<not> match r then Inr False else required_loop d others om)"

definition verify_label ::
  "(string \<rightharpoonup> string) \<Rightarrow> string \<Rightarrow> py_exception + verification_result" where
  "verify_label form_data ocr =
     (let normalized_ocr = normalize_text ocr;
          d1 = [''brand_name'' \<mapsto> check_brand_name (form_get form_data ''brand_name'') normalized_ocr];
          d2 = d1(''product_type'' \<mapsto>
                    check_product_type (form_get form_data ''product_type'') normalized_ocr);
          d3 = d2(''abv'' \<mapsto> check_abv (form_get form_data ''abv'') normalized_ocr)
      in
      case (case form_data ''net_contents'' of
              None \<Rightarrow> Inr d3
            | Some nc \<Rightarrow>
                if nc = [] then Inr d3
                else (case check_net_contents nc normalized_ocr of
                        Inl e \<Rightarrow> Inl e
                      | Inr r \<Rightarrow> Inr (d3(''net_contents'' \<mapsto> r)))) of
        Inl e \<Rightarrow> Inl e
      | Inr d4 \<Rightarrow>
          let d5 = d4(''government_warning'' \<mapsto> check_government_warning normalized_ocr) in
          (case required_loop d5 [''brand_name'', ''product_type'', ''abv''] True of
             Inl e \<Rightarrow> Inl e
           | Inr om \<Rightarrow> Inr \<lparr>overall_match = om, details = d5, ocr_text = ocr\<rparr>))"

section \<open>The text extraction service (\<open>ocr_service.py\<close>)\<close>

text \<open>
  The dictionary that \<open>extract_text_from_image\<close> returns has the keys \<open>success\<close>,
  \<open>text\<close> and \<open>error\<close>; the fields \<open>text_out\<close> and \<open>error_out\<close> stand for the
  last two, and \<open>error_out = None\<close> is Python's \<open>None\<close>.
\<close>

record ocr_result =
  success :: bool
  text_out :: string
  error_out :: "string option"

text \<open>
  The calls into the file system, Pillow and Tesseract are parameters: each one returns
  its value or raises. \<open>'img\<close> is the type of image objects.
\<close>

record 'img ocr_env =
  path_exists :: "string \<Rightarrow> bool"                      \<comment> \<open>\<open>os.path.exists\<close>\<close>
  image_open :: "string \<Rightarrow> py_exception + 'img"         \<comment> \<open>\<open>Image.open\<close>\<close>
  convert_L :: "'img \<Rightarrow> py_exception + 'img"            \<comment> \<open>\<open>image.convert('L')\<close>\<close>
  enhance_contrast :: "'img \<Rightarrow> py_exception + 'img"
    \<comment> \<open>\<open>ImageEnhance.Contrast(image).enhance(2.0)\<close>\<close>
  image_to_string :: "'img \<Rightarrow> py_exception + string"
    \<comment> \<open>\<open>pytesseract.image_to_string(image, lang='eng')\<close>\<close>

definition preprocess_image :: "'img ocr_env \<Rightarrow> 'img \<Rightarrow> py_exception + 'img" where
  "preprocess_image env img =
     (case convert_L env img of
        Inl e \<Rightarrow> Inl e
      | Inr grayscale_image \<Rightarrow> enhance_contrast env grayscale_image)"

definition no_text_error :: string where
  "no_text_error =
     ''No text could be extracted from the image. The image may be too blurry, too dark, or contain no text.''"

definition not_installed_error :: string where
  "not_installed_error =
     ''Tesseract OCR is not installed. Please install it: sudo apt-get install tesseract-ocr''"

text \<open>The statements under \<open>try:\<close>, which return a dictionary or raise.\<close>

definition extract_try_block :: "'img ocr_env \<Rightarrow> string \<Rightarrow> py_exception + ocr_result" where
  "extract_try_block env image_path =
     (case image_open env image_path of
        Inl e \<Rightarrow> Inl e
      | Inr img \<Rightarrow>
          (case preprocess_image env img of
             Inl e \<Rightarrow> Inl e
           | Inr processed_image \<Rightarrow>
               (case image_to_string env processed_image of
                  Inl e \<Rightarrow> Inl e
                | Inr raw_text \<Rightarrow>
                    let extracted_text = strip raw_text in
                    if extracted_text = [] then
                      Inr \<lparr>success = False, text_out = [], error_out = Some no_text_error\<rparr>
                    else
                      Inr \<lparr>success = True, text_out = extracted_text, error_out = None\<rparr>)))"

definition extract_text_from_image :: "'img ocr_env \<Rightarrow> string \<Rightarrow> py_exception + ocr_result" where
  "extract_text_from_image env image_path =
     (if \<not> path_exists env image_path then
        Inr \<lparr>success = False, text_out = [],
             error_out = Some (''Image file not found: '' @ image_path)\<rparr>
      else
        case extract_try_block env image_path of
          Inr r \<Rightarrow> Inr r
        | Inl (Exc TesseractNotFoundError msg) \<Rightarrow>
            Inr \<lparr>success = False, text_out = [], error_out = Some not_installed_error\<rparr>
        | Inl (Exc cls msg) \<Rightarrow>
            Inr \<lparr>success = False, text_out = [],
                 error_out = Some (''Error processing image: '' @ msg)\<rparr>)"

section \<open>The web endpoint (\<open>app.py\<close>)\<close>

definition ALLOWED_EXTENSIONS :: "string set" where
  "ALLOWED_EXTENSIONS = {''png'', ''jpg'', ''jpeg'', ''gif''}"

text \<open>\<open>filename.rsplit('.', 1)[1]\<close>, for a name with a dot in it: what follows the last dot.\<close>

definition after_last_dot :: "string \<Rightarrow> string" where
  "after_last_dot filename = rev (takeWhile (\<lambda>c. c \<noteq> CHR ''.'') (rev filename))"

definition allowed_file :: "string \<Rightarrow> bool" where
  "allowed_file filename =
     (CHR ''.'' \<in> set filename \<and> lower (after_last_dot filename) \<in> ALLOWED_EXTENSIONS)"

text \<open>\<open>', '.join(xs)\<close>\<close>

fun join_comma :: "string list \<Rightarrow> string" where
  "join_comma [] = []"
| "join_comma [x] = x"
| "join_comma (x # y # ys) = x @ '', '' @ join_comma (y # ys)"

text \<open>
  A request to \<open>POST /verify\<close>: the file name of the part \<open>image\<close> (\<open>None\<close> when
  the request has no such part) and the text fields of the form.
\<close>

record request =
  image_filename :: "string option"
  form :: "string \<rightharpoonup> string"

text \<open>
  The JSON body of a response: an error (\<open>success\<close> false and the message, where
  \<open>None\<close> is \<open>null\<close>) or a verification result (\<open>success\<close> true,
  \<open>overall_match\<close>, \<open>details\<close>, \<open>ocr_text\<close>). A response is a body and a status.
\<close>

datatype body =
    ErrorBody "string option"
  | ResultBody bool "string \<rightharpoonup> check_result" string

type_synonym response = "body \<times> nat"

text \<open>
  The surroundings of the endpoint. The file system is the set of the paths that exist;
  \<open>os.path.exists\<close> is membership in it. \<open>file.save\<close> and \<open>os.remove\<close>
  change it and may raise: each gives the exception it raises, if any, and the file
  system it leaves. \<open>allowed_listing\<close> is \<open>', '.join(ALLOWED_EXTENSIONS)\<close>,
  whose order is the set's iteration order.
\<close>

record 'img app_env =
  secure_filename :: "string \<Rightarrow> string"
  gettempdir :: string
  path_join :: "string \<Rightarrow> string \<Rightarrow> string"
  file_save :: "string \<Rightarrow> string set \<Rightarrow> py_exception option \<times> string set"
  os_remove :: "string \<Rightarrow> string set \<Rightarrow> py_exception option \<times> string set"
  allowed_listing :: string
  pil_open :: "string \<Rightarrow> py_exception + 'img"
  pil_convert_L :: "'img \<Rightarrow> py_exception + 'img"
  pil_enhance_contrast :: "'img \<Rightarrow> py_exception + 'img"
  tesseract_image_to_string :: "'img \<Rightarrow> py_exception + string"

definition ocr_env_of :: "'img app_env \<Rightarrow> string set \<Rightarrow> 'img ocr_env" where
  "ocr_env_of env fs =
     \<lparr>path_exists = (\<lambda>p. p \<in> fs), image_open = pil_open env,
      convert_L = pil_convert_L env, enhance_contrast = pil_enhance_contrast env,
      image_to_string = tesseract_image_to_string env\<rparr>"

text \<open>\<open>if os.path.exists(temp_filepath): os.remove(temp_filepath)\<close>\<close>

definition remove_if_exists ::
  "'img app_env \<Rightarrow> string \<Rightarrow> string set \<Rightarrow> py_exception option \<times> string set" where
  "remove_if_exists env temp_filepath fs =
     (if temp_filepath \<in> fs then os_remove env temp_filepath fs else (None, fs))"

text \<open>
  The statements under \<open>try:\<close> in \<open>verify\<close>: they return a response or raise, and
  leave a file system behind.
\<close>

definition verify_try_block ::
  "'img app_env \<Rightarrow> (string \<rightharpoonup> string) \<Rightarrow> string \<Rightarrow> string set
     \<Rightarrow> (py_exception + response) \<times> string set" where
  "verify_try_block env form_data temp_filepath fs =
     (case file_save env temp_filepath fs of
        (Some e, fs1) \<Rightarrow> (Inl e, fs1)
      | (None, fs1) \<Rightarrow>
          (case extract_text_from_image (ocr_env_of env fs1) temp_filepath of
             Inl e \<Rightarrow> (Inl e, fs1)
           | Inr ocr_res \<Rightarrow>
               if \<not> success ocr_res then (Inr (ErrorBody (error_out ocr_res), 500), fs1)
               else
                 (case verify_label form_data (text_out ocr_res) of
                    Inl e \<Rightarrow> (Inl e, fs1)
                  | Inr verification_result \<Rightarrow>
                      (case remove_if_exists env temp_filepath fs1 of
                         (Some e, fs2) \<Rightarrow> (Inl e, fs2)
                       | (None, fs2) \<Rightarrow>
                           (Inr (ResultBody (overall_match verification_result)
                                   (details verification_result)
                                   (ocr_text verification_result),
                                 200),
                            fs2)))))"

text \<open>
  \<open>verify\<close> returns a response, or raises when \<open>os.remove\<close> raises in the
  \<open>except\<close> block; in both cases it leaves a file system behind.
\<close>

definition verify ::
  "'img app_env \<Rightarrow> request \<Rightarrow> string set \<Rightarrow> (py_exception + response) \<times> string set" where
  "verify env req fs =
     (case image_filename req of
        None \<Rightarrow>
          (Inr (ErrorBody
                  (Some ''No image file provided. Please upload an image of the alcohol label.''),
                400), fs)
      | Some filename \<Rightarrow>
          if filename = [] then
            (Inr (ErrorBody (Some ''No file selected. Please choose an image file.''), 400), fs)
          else if \<not> allowed_file filename then
            (Inr (ErrorBody (Some (''Invalid file type. Allowed types: '' @ allowed_listing env)),
                  400),
             fs)
          else
            let form_data =
                  [''brand_name'' \<mapsto> strip (form_get (form req) ''brand_name''),
                   ''product_type'' \<mapsto> strip (form_get (form req) ''product_type''),
                   ''abv'' \<mapsto> strip (form_get (form req) ''abv''),
                   ''net_contents'' \<mapsto> strip (form_get (form req) ''net_contents'')];
                required_fields = [''brand_name'', ''product_type'', ''abv''];
                missing_fields = filter (\<lambda>field. form_get form_data field = []) required_fields
            in
            if missing_fields \<noteq> [] then
              (Inr (ErrorBody (Some (''Missing required fields: '' @ join_comma missing_fields)),
                    400),
               fs)
            else
              let temp_filepath = path_join env (gettempdir env) (secure_filename env filename) in
              (case verify_try_block env form_data temp_filepath fs of
                 (Inr resp, fs') \<Rightarrow> (Inr resp, fs')
               | (Inl (Exc cls msg), fs') \<Rightarrow>
                   (case remove_if_exists env temp_filepath fs' of
                      (Some e, fs'') \<Rightarrow> (Inl e, fs'')
                    | (None, fs'') \<Rightarrow>
                        (Inr (ErrorBody (Some (''Server error: '' @ msg)), 500), fs''))))"

section \<open>Notions used to state the properties\<close>

text \<open>
  The invariant of a field-check result: \<open>match\<close> is true exactly when \<open>found\<close>
  is not \<open>None\<close>, and the key \<open>error\<close> is there exactly when \<open>match\<close> is false.
\<close>

definition result_invariant :: "check_result \<Rightarrow> bool" where
  "result_invariant r =
     ((match r \<longleftrightarrow> found r \<noteq> None) \<and> (error r \<noteq> None \<longleftrightarrow> \<not> match r))"

text \<open>The entry of \<open>details\<close> under \<open>net_contents\<close>, as the request determines it.\<close>

definition net_contents_entry :: "(string \<rightharpoonup> string) \<Rightarrow> string \<Rightarrow> check_result option" where
  "net_contents_entry form_data normalized_ocr =
     (case form_data ''net_contents'' of
        None \<Rightarrow> None
      | Some nc \<Rightarrow>
          if nc = [] then None
          else (case check_net_contents nc normalized_ocr of
                  Inl e \<Rightarrow> None
                | Inr r \<Rightarrow> Some r))"

text \<open>The entry of \<open>details\<close> under a key, for a call that returned.\<close>

definition returned_details ::
  "py_exception + verification_result \<Rightarrow> string \<Rightarrow> check_result option" where
  "returned_details res key = (case res of Inl e \<Rightarrow> None | Inr r \<Rightarrow> details r key)"

text \<open>
  The reading of the specification for the ABV input: surrounding whitespace and one
  trailing percent sign are taken off, every other character stays.
\<close>

definition spec_abv_clean :: "string \<Rightarrow> string" where
  "spec_abv_clean abv =
     (let s = strip abv in strip (if s \<noteq> [] \<and> last s = CHR ''%'' then butlast s else s))"

text \<open>The request and the label text of the specification's end-to-end example.\<close>

definition example_form :: "string \<rightharpoonup> string" where
  "example_form =
     [''brand_name'' \<mapsto> ''Old Tom Distillery'', ''product_type'' \<mapsto> ''Bourbon'',
      ''abv'' \<mapsto> ''45'']"

definition example_ocr_no_warning :: string where
  "example_ocr_no_warning = ''OLD TOM DISTILLERY BOURBON WHISKEY 45% ALC/VOL''"

text \<open>The single-character matchers and the group numbers of a pattern.\<close>

fun atoms_of :: "regex \<Rightarrow> atom set" where
  "atoms_of Eps = {}"
| "atoms_of (Atom a) = {a}"
| "atoms_of (Star a) = {a}"
| "atoms_of (Opt r) = atoms_of r"
| "atoms_of (Seq r1 r2) = atoms_of r1 \<union> atoms_of r2"
| "atoms_of (Group k r) = atoms_of r"
| "atoms_of WordB = {}"

fun group_ids :: "regex \<Rightarrow> nat set" where
  "group_ids Eps = {}"
| "group_ids (Atom a) = {}"
| "group_ids (Star a) = {}"
| "group_ids (Opt r) = group_ids r"
| "group_ids (Seq r1 r2) = group_ids r1 \<union> group_ids r2"
| "group_ids (Group k r) = insert k (group_ids r)"
| "group_ids WordB = {}"


definition example_app_env :: "(py_exception + string) \<Rightarrow> nat app_env" where
  "example_app_env recognized =
     \<lparr>secure_filename = (\<lambda>name. name), gettempdir = ''/tmp'',
      path_join = (\<lambda>dir name. dir @ ''/'' @ name),
      file_save = (\<lambda>path fs. (None, insert path fs)),
      os_remove = (\<lambda>path fs. (None, fs - {path})),
      allowed_listing = ''png, jpg, jpeg, gif'',
      pil_open = (\<lambda>p. Inr 0), pil_convert_L = Inr, pil_enhance_contrast = Inr,
      tesseract_image_to_string = (\<lambda>i. recognized)\<rparr>"

definition example_request :: request where
  "example_request = \<lparr>image_filename = Some ''label.png'', form = example_form\<rparr>"

text \<open>The requests that pass the validation of \<open>verify\<close>.\<close>

definition passes_validation :: "request \<Rightarrow> bool" where
  "passes_validation req =
     (case image_filename req of
        None \<Rightarrow> False
      | Some filename \<Rightarrow>
          filename \<noteq> [] \<and> allowed_file filename
          \<and> strip (form_get (form req) ''brand_name'') \<noteq> []
          \<and> strip (form_get (form req) ''product_type'') \<noteq> []
          \<and> strip (form_get (form req) ''abv'') \<noteq> [])"

text \<open>The path of the temporary file and the form data that \<open>verify\<close> computes.\<close>

definition temp_path :: "'img app_env \<Rightarrow> request \<Rightarrow> string" where
  "temp_path env req =
     path_join env (gettempdir env)
       (secure_filename env
          (case image_filename req of None \<Rightarrow> [] | Some filename \<Rightarrow> filename))"

definition stripped_form :: "request \<Rightarrow> (string \<rightharpoonup> string)" where
  "stripped_form req =
     [''brand_name'' \<mapsto> strip (form_get (form req) ''brand_name''),
      ''product_type'' \<mapsto> strip (form_get (form req) ''product_type''),
      ''abv'' \<mapsto> strip (form_get (form req) ''abv''),
      ''net_contents'' \<mapsto> strip (form_get (form req) ''net_contents'')]"

section \<open>Strings: substrings and trimming\<close>

lemma str_in_sublist: "str_in a b \<longleftrightarrow> sublist a b"
  by (induction b) (auto simp: sublist_Cons_right)

lemma dropWhile_keeps_core:
  "c \<noteq> [] \<Longrightarrow> \<not> P (hd c) \<Longrightarrow> \<exists>x'. dropWhile P (x @ c @ y) = x' @ c @ y"
proof (induction x)
  case Nil
  then have "dropWhile P (c @ y) = c @ y" by (cases c) auto
  then show ?case by (intro exI[of _ "[]"]) simp
next
  case (Cons a x)
  show ?case
  proof (cases "P a")
    case True
    with Cons show ?thesis by simp
  next
    case False
    then show ?thesis by (intro exI[of _ "a # x"]) simp
  qed
qed

lemma strip_keeps_core:
  assumes "c \<noteq> []" "\<not> is_space (hd c)" "\<not> is_space (last c)"
  shows "\<exists>x' y'. strip (x @ c @ y) = x' @ c @ y'"
proof -
  obtain x' where 1: "dropWhile is_space (x @ c @ y) = x' @ c @ y"
    using dropWhile_keeps_core[of c is_space x y] assms by blast
  have "rev c \<noteq> []" "\<not> is_space (hd (rev c))" using assms by (simp_all add: hd_rev)
  then obtain y' where 2: "dropWhile is_space (rev y @ rev c @ rev x') = y' @ rev c @ rev x'"
    using dropWhile_keeps_core[of "rev c" is_space "rev y" "rev x'"] by blast
  have "strip (x @ c @ y) = x' @ c @ rev y'"
    unfolding strip_def 1 using 2 by simp
  then show ?thesis by blast
qed

lemma strip_prefix_of_dropWhile:
  "dropWhile is_space s = strip s @ rev (takeWhile is_space (rev (dropWhile is_space s)))"
proof -
  let ?a = "dropWhile is_space s"
  have "takeWhile is_space (rev ?a) @ dropWhile is_space (rev ?a) = rev ?a"
    by (rule takeWhile_dropWhile_id)
  then have "rev (takeWhile is_space (rev ?a) @ dropWhile is_space (rev ?a)) = rev (rev ?a)"
    by (rule arg_cong)
  then have "rev (dropWhile is_space (rev ?a)) @ rev (takeWhile is_space (rev ?a)) = ?a"
    by (simp only: rev_append rev_rev_ident)
  then show ?thesis unfolding strip_def by (rule sym)
qed

lemma strip_decomp: "\<exists>w1 w2. s = w1 @ strip s @ w2"
proof -
  have "s = takeWhile is_space s @ dropWhile is_space s" by simp
  then show ?thesis using strip_prefix_of_dropWhile by metis
qed

lemma strip_ends:
  assumes "strip s \<noteq> []"
  shows "\<not> is_space (hd (strip s))" and "\<not> is_space (last (strip s))"
proof -
  let ?a = "dropWhile is_space s"
  let ?b = "dropWhile is_space (rev ?a)"
  from assms have b: "?b \<noteq> []" by (simp add: strip_def)
  then have "\<not> is_space (hd ?b)" using hd_dropWhile by blast
  then show "\<not> is_space (last (strip s))" using b by (simp add: strip_def last_rev)
  from b have a: "?a \<noteq> []" by (cases ?a) simp_all
  then have ha: "\<not> is_space (hd ?a)" using hd_dropWhile by blast
  have "hd ?a = hd (strip s)"
    using assms strip_prefix_of_dropWhile[of s] by (metis hd_append2)
  with ha show "\<not> is_space (hd (strip s))" by simp
qed

text \<open>Trimming both strings keeps an occurrence.\<close>

lemma sublist_strip: "sublist a b \<Longrightarrow> sublist (strip a) (strip b)"
proof (cases "strip a = []")
  case True
  then show ?thesis by simp
next
  case False
  assume "sublist a b"
  then obtain p q where b: "b = p @ a @ q" by (auto simp: sublist_def)
  obtain w1 w2 where a: "a = w1 @ strip a @ w2" using strip_decomp by blast
  have "b = (p @ w1) @ strip a @ (w2 @ q)" by (subst b, subst a) simp
  moreover obtain x' y' where "strip ((p @ w1) @ strip a @ (w2 @ q)) = x' @ strip a @ y'"
    using strip_keeps_core[OF False strip_ends[OF False]] by blast
  ultimately have "strip b = x' @ strip a @ y'" by simp
  then show ?thesis by (metis sublist_appendI)
qed

lemma is_space_simps: "\<not> is_space CHR ''%''" "is_space CHR '' ''" "\<not> is_space CHR ''.''"
  by (simp_all add: is_space_def whitespace_chars_def)

lemma is_word_simps:
  "is_word CHR ''4''" "is_word CHR ''1''" "is_word CHR ''5''" "\<not> is_word CHR ''%''"
  by (simp_all add: is_word_def is_digit_def is_lower_letter_def is_upper_letter_def
      latin1_upper_def latin1_lower_def latin1_other_alnum_def)

section \<open>Searching\<close>

lemma rmatch_groups_mono:
  "(pre', rest', g') \<in> set (rmatch ic r (pre, rest, g)) \<Longrightarrow> g k \<noteq> None \<Longrightarrow> g' k \<noteq> None"
proof (induction r arbitrary: pre rest g pre' rest' g')
  case (Seq r1 r2)
  then show ?case by (auto; blast)
qed (auto split: list.splits if_splits)

lemma rmatch_Group_sets:
  "(pre', rest', g') \<in> set (rmatch ic (Group k r) st) \<Longrightarrow> g' k \<noteq> None"
  by (cases st) auto

text \<open>
  A match consumes a prefix of the remaining text, made of characters that matchers of
  the pattern accept; it changes no group but the pattern's own.
\<close>

lemma star_states_consumes:
  "(pre', rest') \<in> set (star_states P pre rest) \<Longrightarrow>
   \<exists>w. pre' = pre @ w \<and> rest = w @ rest' \<and> (\<forall>c\<in>set w. P c)"
proof (induction rest arbitrary: pre)
  case Nil
  then show ?case by simp
next
  case (Cons c cs)
  show ?case
  proof (cases "P c \<and> (pre', rest') \<in> set (star_states P (pre @ [c]) cs)")
    case True
    with Cons.IH[of "pre @ [c]"] obtain w where
      "pre' = (pre @ [c]) @ w" "cs = w @ rest'" "\<forall>x\<in>set w. P x" by blast
    with True show ?thesis by (intro exI[of _ "c # w"]) simp
  next
    case False
    with Cons.prems have "pre' = pre \<and> rest' = c # cs" by (auto split: if_splits)
    then show ?thesis by simp
  qed
qed

lemma rmatch_consumes:
  "(pre', rest', g') \<in> set (rmatch ic r (pre, rest, g)) \<Longrightarrow>
   \<exists>w. pre' = pre @ w \<and> rest = w @ rest' \<and> (\<forall>c\<in>set w. \<exists>a\<in>atoms_of r. atom_ok ic a c)"
proof (induction r arbitrary: pre rest g pre' rest' g')
  case Eps
  then show ?case by simp
next
  case (Atom a)
  then show ?case by (auto split: list.splits if_splits)
next
  case (Star a)
  then show ?case using star_states_consumes[of pre' rest' "atom_ok ic a" pre rest] by auto
next
  case (Opt r)
  then show ?case by fastforce
next
  case (Seq r1 r2)
  from Seq.prems obtain p1 q1 g1 where
    a: "(p1, q1, g1) \<in> set (rmatch ic r1 (pre, rest, g))"
    and b: "(pre', rest', g') \<in> set (rmatch ic r2 (p1, q1, g1))"
    by auto
  from Seq.IH(1)[OF a] obtain w1 where
    w1: "p1 = pre @ w1" "rest = w1 @ q1" "\<forall>c\<in>set w1. \<exists>a\<in>atoms_of r1. atom_ok ic a c" by blast
  from Seq.IH(2)[OF b] obtain w2 where
    w2: "pre' = p1 @ w2" "q1 = w2 @ rest'" "\<forall>c\<in>set w2. \<exists>a\<in>atoms_of r2. atom_ok ic a c" by blast
  from w1 w2 show ?case by (intro exI[of _ "w1 @ w2"]) auto
next
  case (Group k r)
  then show ?case by fastforce
next
  case WordB
  then show ?case by (auto split: if_splits)
qed

lemma rmatch_groups_unchanged:
  "(pre', rest', g') \<in> set (rmatch ic r (pre, rest, g)) \<Longrightarrow> k \<notin> group_ids r \<Longrightarrow> g' k = g k"
proof (induction r arbitrary: pre rest g pre' rest' g')
  case (Seq r1 r2)
  from Seq.prems obtain p1 q1 g1 where
    a: "(p1, q1, g1) \<in> set (rmatch ic r1 (pre, rest, g))"
    and b: "(pre', rest', g') \<in> set (rmatch ic r2 (p1, q1, g1))"
    by auto
  from Seq.IH(1)[OF a] Seq.IH(2)[OF b] Seq.prems(2) show ?case by simp
next
  case (Group j r)
  then show ?case by fastforce
qed (auto split: list.splits if_splits)

lemma rmatch_SeqD:
  "st'' \<in> set (rmatch ic (Seq r1 r2) st) \<Longrightarrow>
   \<exists>st'. st' \<in> set (rmatch ic r1 st) \<and> st'' \<in> set (rmatch ic r2 st')"
  by auto

lemma rmatch_GroupD:
  "(p1, q1, g1) \<in> set (rmatch ic (Group k r) (pre, rest, g)) \<Longrightarrow>
   \<exists>g0. (p1, q1, g0) \<in> set (rmatch ic r (pre, rest, g)) \<and> g1 = g0(k \<mapsto> drop (length pre) p1)"
  by auto

lemma match_at_SomeD:
  "match_at ic r pre rest = Some m \<Longrightarrow>
   \<exists>pre' rest' xs. rmatch ic r (pre, rest, Map.empty) = (pre', rest', groups m) # xs
      \<and> group0 m = drop (length pre) pre'"
  by (auto simp: match_at_def split: list.splits)

lemma search_from_SomeD:
  "search_from ic r pre rest = Some m \<Longrightarrow>
   \<exists>p q. pre @ rest = p @ q \<and> match_at ic r p q = Some m"
proof (induction rest arbitrary: pre)
  case Nil
  then show ?case by auto
next
  case (Cons c cs)
  show ?case
  proof (cases "match_at ic r pre (c # cs)")
    case None
    with Cons.prems have "search_from ic r (pre @ [c]) cs = Some m" by simp
    from Cons.IH[OF this] show ?thesis by auto
  next
    case (Some a)
    with Cons.prems show ?thesis by auto
  qed
qed

text \<open>A search fails exactly when the pattern matches at no position of the text.\<close>

lemma search_from_None_iff:
  "search_from ic r pre s = None \<longleftrightarrow> (\<forall>p q. s = p @ q \<longrightarrow> match_at ic r (pre @ p) q = None)"
proof (induction s arbitrary: pre)
  case Nil
  then show ?case by simp
next
  case (Cons c cs)
  show ?case
  proof
    assume a: "search_from ic r pre (c # cs) = None"
    then have m: "match_at ic r pre (c # cs) = None" by (simp split: option.splits)
    with a have "search_from ic r (pre @ [c]) cs = None" by simp
    with Cons.IH have t: "\<forall>p q. cs = p @ q \<longrightarrow> match_at ic r ((pre @ [c]) @ p) q = None" by blast
    show "\<forall>p q. c # cs = p @ q \<longrightarrow> match_at ic r (pre @ p) q = None"
    proof (intro allI impI)
      fix p q assume e: "c # cs = p @ q"
      show "match_at ic r (pre @ p) q = None"
      proof (cases p)
        case Nil
        with e m show ?thesis by simp
      next
        case (Cons a p')
        with e have "a = c" "cs = p' @ q" by simp_all
        with t Cons show ?thesis by simp
      qed
    qed
  next
    assume a: "\<forall>p q. c # cs = p @ q \<longrightarrow> match_at ic r (pre @ p) q = None"
    then have m: "match_at ic r pre (c # cs) = None" by (metis append_Nil append_Nil2)
    have "\<forall>p q. cs = p @ q \<longrightarrow> match_at ic r ((pre @ [c]) @ p) q = None"
    proof (intro allI impI)
      fix p q assume "cs = p @ q"
      then have "c # cs = (c # p) @ q" by simp
      with a have "match_at ic r (pre @ c # p) q = None" by blast
      then show "match_at ic r ((pre @ [c]) @ p) q = None" by simp
    qed
    with Cons.IH have "search_from ic r (pre @ [c]) cs = None" by blast
    with m show "search_from ic r pre (c # cs) = None" by simp
  qed
qed

lemma re_search_None_iff:
  "re_search ic r s = None \<longleftrightarrow> (\<forall>p q. s = p @ q \<longrightarrow> match_at ic r p q = None)"
  by (simp add: re_search_def search_from_None_iff)

lemma re_search_SomeI:
  "match_at ic r p q \<noteq> None \<Longrightarrow> re_search ic r (p @ q) \<noteq> None"
  by (auto simp: re_search_None_iff)

section \<open>The field checks\<close>

lemma volume_regex_groups:
  assumes "(pre', rest', g') \<in> set (rmatch ic volume_regex st)"
  shows "g' 1 \<noteq> None \<and> g' 2 \<noteq> None"
proof -
  from assms obtain s1 s2 where
    s1: "s1 \<in> set (rmatch ic
           (Group 1 (Seq (Plus Digit) (Opt (Seq (Atom (Lit CHR ''.'')) (Plus Digit))))) st)"
    and s2: "s2 \<in> set (rmatch ic (Star Space) s1)"
    and s3: "(pre', rest', g') \<in> set (rmatch ic
           (Group 2 (Plus (Bracket [IRange CHR ''a'' CHR ''z'', ILit CHR ''.'', ISpace]))) s2)"
    unfolding volume_regex_def by auto
  obtain p1 r1 g1 where e1: "s1 = (p1, r1, g1)" by (cases s1) auto
  obtain p2 r2 g2 where e2: "s2 = (p2, r2, g2)" by (cases s2) auto
  from s1 e1 have "g1 1 \<noteq> None" using rmatch_Group_sets by blast
  with s2 e1 e2 have "g2 1 \<noteq> None" using rmatch_groups_mono by blast
  with s3 e2 have "g' 1 \<noteq> None" using rmatch_groups_mono by blast
  moreover from s3 have "g' 2 \<noteq> None" using rmatch_Group_sets by blast
  ultimately show ?thesis by simp
qed

lemma volume_search_groups:
  "re_search ic volume_regex s = Some m \<Longrightarrow> groups m 1 \<noteq> None \<and> groups m 2 \<noteq> None"
  unfolding re_search_def
  by (metis search_from_SomeD match_at_SomeD volume_regex_groups list.set_intros(1))

text \<open>
  Both groups of the volume pattern take part in every match, so
  \<open>_check_net_contents\<close> never raises.
\<close>

lemma check_net_contents_total: "\<exists>r. check_net_contents nc ocr = Inr r"
proof (cases "re_search False volume_regex (normalize_text nc)")
  case None
  then show ?thesis by (simp add: check_net_contents_def)
next
  case (Some m)
  from volume_search_groups[OF Some] obtain n u where "groups m 1 = Some n" "groups m 2 = Some u"
    by auto
  with Some show ?thesis
    by (auto simp: check_net_contents_def Let_def split: option.splits)
qed

text \<open>
  The number that the volume pattern captures consists of digits and dots, the characters
  that \<open>number_pattern\<close> reads.
\<close>

lemma volume_regex_number:
  assumes "(pre', rest', g') \<in> set (rmatch False volume_regex (pre, rest, g))"
    and "g' 1 = Some n"
  shows "\<forall>c\<in>set n. is_digit c \<or> c = CHR ''.''"
proof -
  let ?num = "Seq (Plus Digit) (Opt (Seq (Atom (Lit CHR ''.'')) (Plus Digit)))"
  let ?tail = "Seq (Star Space)
                 (Group 2 (Plus (Bracket [IRange CHR ''a'' CHR ''z'', ILit CHR ''.'', ISpace])))"
  have "volume_regex = Seq (Group 1 ?num) ?tail" by (simp add: volume_regex_def)
  with assms(1) obtain st1 where
    a': "st1 \<in> set (rmatch False (Group 1 ?num) (pre, rest, g))"
    and b': "(pre', rest', g') \<in> set (rmatch False ?tail st1)"
    using rmatch_SeqD by metis
  obtain p1 q1 g1 where st1: "st1 = (p1, q1, g1)" by (cases st1) auto
  from a' st1 obtain g0 where
    c: "(p1, q1, g0) \<in> set (rmatch False ?num (pre, rest, g))"
    and g1: "g1 = g0(1 \<mapsto> drop (length pre) p1)"
    using rmatch_GroupD by blast
  from rmatch_consumes[OF c] obtain w where
    w: "p1 = pre @ w" "\<forall>c\<in>set w. \<exists>a\<in>atoms_of ?num. atom_ok False a c" by blast
  have "1 \<notin> group_ids ?tail" by (simp add: Plus_def)
  with b' st1 have "g' 1 = g1 1"
    using rmatch_groups_unchanged by blast
  with g1 w(1) assms(2) have "n = w" by simp
  with w(2) show ?thesis by (auto simp: Plus_def)
qed

lemma volume_search_number:
  assumes "re_search False volume_regex s = Some m" and "groups m 1 = Some n"
  shows "\<forall>c\<in>set n. is_digit c \<or> c = CHR ''.''"
proof -
  from assms(1) obtain p q where "match_at False volume_regex p q = Some m"
    unfolding re_search_def using search_from_SomeD by blast
  then obtain pre' rest' xs where
    "rmatch False volume_regex (p, q, Map.empty) = (pre', rest', groups m) # xs"
    using match_at_SomeD by blast
  then have "(pre', rest', groups m) \<in> set (rmatch False volume_regex (p, q, Map.empty))"
    by simp
  from volume_regex_number[OF this assms(2)] show ?thesis .
qed

lemma check_brand_name_match:
  "match (check_brand_name b n) \<longleftrightarrow> b \<noteq> [] \<and> sublist (normalize_text b) n"
  by (simp add: check_brand_name_def Let_def str_in_sublist)

lemma check_product_type_match:
  "match (check_product_type b n) \<longleftrightarrow> b \<noteq> [] \<and> sublist (normalize_text b) n"
  by (simp add: check_product_type_def Let_def str_in_sublist)

lemma check_abv_match:
  "match (check_abv abv n) \<longleftrightarrow> abv \<noteq> [] \<and> re_search False (abv_pattern abv) n \<noteq> None"
  by (auto simp: check_abv_def split: option.splits)

lemma check_brand_name_invariant: "result_invariant (check_brand_name b n)"
  by (simp add: check_brand_name_def result_invariant_def Let_def)

lemma check_product_type_invariant: "result_invariant (check_product_type p n)"
  by (simp add: check_product_type_def result_invariant_def Let_def)

lemma check_abv_invariant: "result_invariant (check_abv a n)"
  by (simp add: check_abv_def result_invariant_def split: option.splits)

lemma check_government_warning_invariant: "result_invariant (check_government_warning n)"
  by (simp add: check_government_warning_def result_invariant_def)

lemma check_net_contents_invariant:
  "check_net_contents nc n = Inr r \<Longrightarrow> result_invariant r"
  by (auto simp: check_net_contents_def result_invariant_def Let_def
      split: if_splits option.splits)

text \<open>What \<open>verify_label\<close> returns, entry by entry; it never raises.\<close>

lemma verify_label_shape:
  "\<exists>d. verify_label fd ocr =
          Inr \<lparr>overall_match =
                 (match (check_brand_name (form_get fd ''brand_name'') (normalize_text ocr))
                  \<and> match (check_product_type (form_get fd ''product_type'') (normalize_text ocr))
                  \<and> match (check_abv (form_get fd ''abv'') (normalize_text ocr))),
               details = d, ocr_text = ocr\<rparr>
      \<and> d ''brand_name'' = Some (check_brand_name (form_get fd ''brand_name'') (normalize_text ocr))
      \<and> d ''product_type''
          = Some (check_product_type (form_get fd ''product_type'') (normalize_text ocr))
      \<and> d ''abv'' = Some (check_abv (form_get fd ''abv'') (normalize_text ocr))
      \<and> d ''government_warning'' = Some (check_government_warning (normalize_text ocr))
      \<and> d ''net_contents'' = net_contents_entry fd (normalize_text ocr)"
proof (cases "fd ''net_contents''")
  case None
  then show ?thesis
    by (simp add: verify_label_def net_contents_entry_def Let_def)
next
  case (Some nc)
  show ?thesis
  proof (cases "nc = []")
    case True
    with Some show ?thesis
      by (simp add: verify_label_def net_contents_entry_def Let_def)
  next
    case False
    obtain r where "check_net_contents nc (normalize_text ocr) = Inr r"
      using check_net_contents_total by blast
    with Some False show ?thesis
      by (simp add: verify_label_def net_contents_entry_def Let_def)
  qed
qed

section \<open>The overall result\<close>

text \<open>
  Claim C1. For every request, \<open>verify_label\<close> returns, and the \<open>overall_match\<close> of
  its result is the conjunction of the \<open>match\<close> flags that \<open>details\<close> holds under
  \<open>brand_name\<close>, \<open>product_type\<close> and \<open>abv\<close>; these three are the checks of the
  three form values against the normalized text. The entries under \<open>net_contents\<close>
  and \<open>government_warning\<close> do not occur in it. For the example request, whose
  text has no government warning, the warning check fails and \<open>overall_match\<close> is true.
\<close>

theorem verify_label_overall_match:
  "(\<exists>r b p a. verify_label fd ocr = Inr r
       \<and> details r ''brand_name'' = Some b \<and> details r ''product_type'' = Some p
       \<and> details r ''abv'' = Some a
       \<and> b = check_brand_name (form_get fd ''brand_name'') (normalize_text ocr)
       \<and> p = check_product_type (form_get fd ''product_type'') (normalize_text ocr)
       \<and> a = check_abv (form_get fd ''abv'') (normalize_text ocr)
       \<and> overall_match r = (match b \<and> match p \<and> match a))"
  using verify_label_shape[of fd ocr] by auto

theorem verify_label_overall_match_witness:
  "\<exists>r w. verify_label example_form example_ocr_no_warning = Inr r
       \<and> details r ''government_warning'' = Some w \<and> \<not> match w
       \<and> details r ''net_contents'' = None
       \<and> overall_match r"
proof -
  have e: "case verify_label example_form example_ocr_no_warning of
             Inl x \<Rightarrow> False
           | Inr r \<Rightarrow>
               (case details r ''government_warning'' of
                  None \<Rightarrow> False
                | Some w \<Rightarrow> \<not> match w \<and> details r ''net_contents'' = None \<and> overall_match r)"
    by code_simp
  from verify_label_overall_match[of example_form example_ocr_no_warning]
  obtain r where "verify_label example_form example_ocr_no_warning = Inr r" by blast
  with e show ?thesis by (auto split: option.splits)
qed

section \<open>Brand name and product type\<close>

text \<open>
  Claim C2, as amended. For a brand name or product type \<open>B\<close> and a label text \<open>T\<close>,
  the check against the normalized text returns \<open>match\<close> true exactly when \<open>B\<close> is
  not empty and the lowercased and trimmed \<open>B\<close> is a substring of the lowercased and
  trimmed \<open>T\<close>. So a non-empty \<open>B\<close> whose lowercased form is a substring of the
  lowercased \<open>T\<close> matches; the empty \<open>B\<close> never matches, and whitespace around
  \<open>B\<close> is not compared. Lowercasing and trimming are Python's, accented letters and
  the no-break space included: the brand with a small e acute matches the label that
  prints it in capitals and ends with a no-break space.
\<close>

theorem name_checks_substring:
  "(match (check_brand_name B (normalize_text T))
      \<longleftrightarrow> B \<noteq> [] \<and> sublist (normalize_text B) (normalize_text T))
   \<and> (match (check_product_type B (normalize_text T))
      \<longleftrightarrow> B \<noteq> [] \<and> sublist (normalize_text B) (normalize_text T))
   \<and> (B \<noteq> [] \<and> sublist (lower B) (lower T)
      \<longrightarrow> match (check_brand_name B (normalize_text T))
          \<and> match (check_product_type B (normalize_text T)))"
  using sublist_strip[of "lower B" "lower T"]
  by (simp add: check_brand_name_match check_product_type_match normalize_text_def)

theorem name_checks_substring_witness:
  "''Tom '' \<noteq> [] \<and> sublist (lower ''Tom '') (lower ''Old Tom Distillery'')
   \<and> match (check_brand_name ''Tom '' (normalize_text ''Old Tom Distillery''))
   \<and> match (check_product_type ''Tom '' (normalize_text ''Old Tom Distillery''))
   \<and> sublist (normalize_text ''Tom '') (normalize_text ''Old Tom Distillery'')
   \<and> sublist (lower (''R'' @ [CHR 0xE9] @ ''my Martin''))
         (lower (''R'' @ [CHR 0xC9] @ ''MY MARTIN'' @ [CHR 0xA0]))
   \<and> match (check_brand_name (''R'' @ [CHR 0xE9] @ ''my Martin'')
         (normalize_text (''R'' @ [CHR 0xC9] @ ''MY MARTIN'' @ [CHR 0xA0])))"
proof -
  have h: "sublist (lower ''Tom '') (lower ''Old Tom Distillery'')" by code_simp
  have n: "sublist (normalize_text ''Tom '') (normalize_text ''Old Tom Distillery'')"
    by code_simp
  have r: "sublist (lower (''R'' @ [CHR 0xE9] @ ''my Martin''))
             (lower (''R'' @ [CHR 0xC9] @ ''MY MARTIN'' @ [CHR 0xA0]))"
    by code_simp
  from h name_checks_substring[of "''Tom ''" "''Old Tom Distillery''"]
  have 1: "match (check_brand_name ''Tom '' (normalize_text ''Old Tom Distillery''))
           \<and> match (check_product_type ''Tom '' (normalize_text ''Old Tom Distillery''))"
    by blast
  from r name_checks_substring
           [of "''R'' @ [CHR 0xE9] @ ''my Martin''" "''R'' @ [CHR 0xC9] @ ''MY MARTIN'' @ [CHR 0xA0]"]
  have 2: "match (check_brand_name (''R'' @ [CHR 0xE9] @ ''my Martin'')
             (normalize_text (''R'' @ [CHR 0xC9] @ ''MY MARTIN'' @ [CHR 0xA0])))"
    by blast
  from h n r 1 2 show ?thesis by blast
qed

text \<open>
  The claim as it was stated fails: the empty input is a substring of every text and does
  not match, and \<open>tom\<close> followed by a blank is not a substring of \<open>old tom\<close> and
  matches.
\<close>

theorem name_checks_substring_counterexample:
  "\<not> (match (check_brand_name [] (normalize_text ''abc''))
        \<longleftrightarrow> sublist (lower []) (lower ''abc''))
   \<and> \<not> (match (check_product_type [] (normalize_text ''abc''))
        \<longleftrightarrow> sublist (lower []) (lower ''abc''))
   \<and> \<not> (match (check_brand_name ''tom '' (normalize_text ''old tom''))
        \<longleftrightarrow> sublist (lower ''tom '') (lower ''old tom''))
   \<and> \<not> (match (check_product_type ''tom '' (normalize_text ''old tom''))
        \<longleftrightarrow> sublist (lower ''tom '') (lower ''old tom''))"
  by code_simp

section \<open>The ABV check for the input 45\<close>

lemma abv_clean_45: "abv_clean ''45'' = ''45''"
  by code_simp

lemma abv_pattern_45:
  "abv_pattern ''45'' =
     Seq WordB
       (Seq (Seq (Atom (Lit CHR ''4'')) (Seq (Atom (Lit CHR ''5'')) Eps))
          (Seq (Opt (Seq (Atom (Lit CHR ''.'')) (Atom (Lit CHR ''0''))))
             (Seq (Star Space) (Atom (Lit CHR ''%'')))))"
  by (simp add: abv_pattern_def abv_clean_45 re_escape_def)

lemma match_at_45:
  assumes "pre = [] \<or> \<not> is_word (last pre)"
  shows "match_at False (abv_pattern ''45'') pre (''45%'' @ post) \<noteq> None"
    and "match_at False (abv_pattern ''45'') pre (''45.0%'' @ post) \<noteq> None"
    and "match_at False (abv_pattern ''45'') pre (''45 %'' @ post) \<noteq> None"
  using assms
  by (auto simp: match_at_def abv_pattern_45 at_boundary_def is_space_simps is_word_simps)

lemma no_match_at_45_hd:
  "rest = [] \<or> hd rest \<noteq> CHR ''4'' \<Longrightarrow> match_at False (abv_pattern ''45'') p rest = None"
  by (cases rest) (auto simp: match_at_def abv_pattern_45)

lemma search_from_45_skip:
  "CHR ''4'' \<notin> set xs \<Longrightarrow>
   search_from False (abv_pattern ''45'') p (xs @ ys)
     = search_from False (abv_pattern ''45'') (p @ xs) ys"
proof (induction xs arbitrary: p)
  case Nil
  then show ?case by simp
next
  case (Cons c cs)
  then have "match_at False (abv_pattern ''45'') p (c # cs @ ys) = None"
    by (intro no_match_at_45_hd) auto
  with Cons show ?case by simp
qed

lemma search_from_45_none:
  "CHR ''4'' \<notin> set xs \<Longrightarrow> search_from False (abv_pattern ''45'') p xs = None"
proof (induction xs arbitrary: p)
  case Nil
  then show ?case by (simp add: no_match_at_45_hd)
next
  case (Cons c cs)
  then have "match_at False (abv_pattern ''45'') p (c # cs) = None"
    by (intro no_match_at_45_hd) auto
  with Cons show ?case by simp
qed

lemma no_match_145:
  assumes "CHR ''4'' \<notin> set pre" "CHR ''4'' \<notin> set post"
  shows "re_search False (abv_pattern ''45'') (pre @ ''145%'' @ post) = None"
proof -
  have 1: "match_at False (abv_pattern ''45'') (pre @ ''1'') (''45%'' @ post) = None"
    by (simp add: match_at_def abv_pattern_45 at_boundary_def is_word_simps)
  have "search_from False (abv_pattern ''45'') [] (pre @ ''145%'' @ post)
        = search_from False (abv_pattern ''45'') pre (''145%'' @ post)"
    using search_from_45_skip[OF assms(1), of "[]"] by simp
  also have "\<dots> = search_from False (abv_pattern ''45'') (pre @ ''145%'') post"
    using 1 by (simp add: no_match_at_45_hd)
  also have "\<dots> = None" using assms(2) by (rule search_from_45_none)
  finally show ?thesis by (simp add: re_search_def)
qed

lemma no_match_450:
  assumes "CHR ''4'' \<notin> set pre" "CHR ''4'' \<notin> set post"
  shows "re_search False (abv_pattern ''45'') (pre @ ''450%'' @ post) = None"
proof -
  have 1: "match_at False (abv_pattern ''45'') pre (''450%'' @ post) = None"
    by (simp add: match_at_def abv_pattern_45 at_boundary_def is_word_simps is_space_def
        whitespace_chars_def)
  have "search_from False (abv_pattern ''45'') [] (pre @ ''450%'' @ post)
        = search_from False (abv_pattern ''45'') pre (''450%'' @ post)"
    using search_from_45_skip[OF assms(1), of "[]"] by simp
  also have "\<dots> = search_from False (abv_pattern ''45'') (pre @ ''450%'') post"
    using 1 by (simp add: no_match_at_45_hd)
  also have "\<dots> = None" using assms(2) by (rule search_from_45_none)
  finally show ?thesis by (simp add: re_search_def)
qed

text \<open>
  Claim C3, as amended. For the ABV input \<open>45\<close>, the check returns \<open>match\<close> true
  when the normalized text holds \<open>45%\<close>, \<open>45.0%\<close> or \<open>45 %\<close> at a word
  boundary, that is at the start of the text or right after a character that is not a
  word character (a letter, accented ones included, a digit or other alphanumeric
  character, or the underscore); and it returns \<open>match\<close> false when the only
  \<open>4\<close> of the text is the one of a \<open>145%\<close> or of a \<open>450%\<close>.
\<close>

theorem abv_45_examples:
  "(pre = [] \<or> \<not> is_word (last pre)
      \<longrightarrow> match (check_abv ''45'' (pre @ ''45%'' @ post))
          \<and> match (check_abv ''45'' (pre @ ''45.0%'' @ post))
          \<and> match (check_abv ''45'' (pre @ ''45 %'' @ post)))
   \<and> (CHR ''4'' \<notin> set pre \<and> CHR ''4'' \<notin> set post
      \<longrightarrow> \<not> match (check_abv ''45'' (pre @ ''145%'' @ post))
          \<and> \<not> match (check_abv ''45'' (pre @ ''450%'' @ post)))"
  using match_at_45[of pre post] re_search_SomeI[of False "abv_pattern ''45''" pre]
    no_match_145[of pre post] no_match_450[of pre post]
  by (simp add: check_abv_match)

theorem abv_45_examples_witness:
  "\<not> is_word (last ''alc '')
   \<and> CHR ''4'' \<notin> set ''alc '' \<and> CHR ''4'' \<notin> set '' vol''
   \<and> match (check_abv ''45'' (''alc '' @ ''45%'' @ '' vol''))
   \<and> match (check_abv ''45'' (''alc '' @ ''45.0%'' @ '' vol''))
   \<and> match (check_abv ''45'' (''alc '' @ ''45 %'' @ '' vol''))
   \<and> \<not> match (check_abv ''45'' (''alc '' @ ''145%'' @ '' vol''))
   \<and> \<not> match (check_abv ''45'' (''alc '' @ ''450%'' @ '' vol''))
   \<and> \<not> is_word (last (''alc'' @ [CHR 0xA0]))
   \<and> match (check_abv ''45'' ((''alc'' @ [CHR 0xA0]) @ ''45%'' @ []))"
proof -
  have "\<not> is_word (last ''alc '')" "\<not> is_word (last (''alc'' @ [CHR 0xA0]))"
    by (simp_all add: is_word_def is_digit_def is_lower_letter_def is_upper_letter_def
        latin1_upper_def latin1_lower_def latin1_other_alnum_def)
  moreover have "CHR ''4'' \<notin> set ''alc ''" "CHR ''4'' \<notin> set '' vol''" by simp_all
  ultimately show ?thesis
    using abv_45_examples[of "''alc ''" "'' vol''"]
      abv_45_examples[of "''alc'' @ [CHR 0xA0]" "[]"]
    by blast
qed

text \<open>
  The claim as it was stated fails: the texts \<open>x45%\<close> and \<open>caf\<close>, e acute,
  \<open>45%\<close> contain \<open>45%\<close>, their only candidate is neither \<open>145%\<close> nor
  \<open>450%\<close>, and the check does not match, because a letter stands before the
  number.
\<close>

theorem abv_45_examples_counterexample:
  "sublist ''45%'' ''x45%'' \<and> \<not> match (check_abv ''45'' ''x45%'')
   \<and> sublist ''45%'' (''caf'' @ [CHR 0xE9] @ ''45%'')
   \<and> \<not> match (check_abv ''45'' (''caf'' @ [CHR 0xE9] @ ''45%''))"
  by code_simp

section \<open>Net contents that were not provided\<close>

text \<open>
  Claim C4, as amended. When the request has no \<open>net_contents\<close> or an empty one,
  \<open>verify_label\<close> returns a result whose \<open>details\<close> has no entry under
  \<open>net_contents\<close>: the check is not called. Called with the empty input,
  \<open>_check_net_contents\<close> returns \<open>match\<close> true with \<open>Not provided\<close> as the
  expected and \<open>Not checked\<close> as the found value, and no error.
\<close>

theorem net_contents_absent_no_entry:
  "(fd ''net_contents'' = None \<or> fd ''net_contents'' = Some []
      \<longrightarrow> (\<exists>r. verify_label fd ocr = Inr r \<and> details r ''net_contents'' = None))
   \<and> check_net_contents [] n =
       Inr \<lparr>match = True, expected = ''Not provided'', found = Some ''Not checked'',
            error = None\<rparr>"
  using verify_label_shape[of fd ocr]
  by (auto simp: net_contents_entry_def check_net_contents_def)

theorem net_contents_absent_no_entry_witness:
  "example_form ''net_contents'' = None
   \<and> (\<exists>r. verify_label example_form example_ocr_no_warning = Inr r
          \<and> details r ''net_contents'' = None)"
proof -
  have "example_form ''net_contents'' = None" by (simp add: example_form_def)
  with net_contents_absent_no_entry[of example_form example_ocr_no_warning] show ?thesis
    by blast
qed

text \<open>
  The claim as it was stated fails: for the example request, without \<open>net_contents\<close>
  and with an empty one, \<open>verify_label\<close> returns and \<open>details\<close> has no entry under
  \<open>net_contents\<close>.
\<close>

theorem net_contents_absent_counterexample:
  "example_form ''net_contents'' = None
   \<and> \<not> isl (verify_label example_form example_ocr_no_warning)
   \<and> returned_details (verify_label example_form example_ocr_no_warning) ''net_contents''
       = None
   \<and> (example_form(''net_contents'' \<mapsto> [])) ''net_contents'' = Some []
   \<and> \<not> isl (verify_label (example_form(''net_contents'' \<mapsto> [])) example_ocr_no_warning)
   \<and> returned_details
         (verify_label (example_form(''net_contents'' \<mapsto> [])) example_ocr_no_warning)
         ''net_contents'' = None"
  by code_simp

section \<open>The invariant of the check results\<close>

text \<open>
  Claim C9. Every result of the five field checks satisfies the invariant: \<open>match\<close>
  is true exactly when \<open>found\<close> is not \<open>None\<close>, and the key \<open>error\<close> is there
  exactly when \<open>match\<close> is false. The net-contents check always returns a result.
\<close>

theorem check_results_invariant:
  "result_invariant (check_brand_name b n)
   \<and> result_invariant (check_product_type p n)
   \<and> result_invariant (check_abv a n)
   \<and> (\<exists>r. check_net_contents nc n = Inr r \<and> result_invariant r)
   \<and> result_invariant (check_government_warning n)"
  using check_brand_name_invariant check_product_type_invariant check_abv_invariant
    check_government_warning_invariant check_net_contents_invariant
    check_net_contents_total[of nc n]
  by blast

theorem check_results_invariant_witness:
  "result_invariant (check_brand_name ''Old Tom'' ''old tom 45% 750 ml'')
   \<and> result_invariant (check_product_type ''Gin'' ''old tom 45% 750 ml'')
   \<and> result_invariant (check_abv ''45'' ''old tom 45% 750 ml'')
   \<and> (\<exists>r. check_net_contents ''750 mL'' ''old tom 45% 750 ml'' = Inr r
          \<and> result_invariant r \<and> match r)
   \<and> result_invariant (check_government_warning ''old tom 45% 750 ml'')"
proof -
  have "case check_net_contents ''750 mL'' ''old tom 45% 750 ml'' of
          Inl x \<Rightarrow> False | Inr r \<Rightarrow> match r"
    by code_simp
  with check_results_invariant
         [of "''Old Tom''" "''old tom 45% 750 ml''" "''Gin''" "''45''" "''750 mL''"]
  show ?thesis by (auto split: sum.splits)
qed

section \<open>The text that is returned\<close>

text \<open>
  Claim C10. For every form and every text, \<open>verify_label\<close> returns a result whose
  \<open>ocr_text\<close> is the text it was given, unchanged; for the example text this differs
  from the normalized text that the checks compare against.
\<close>

theorem verify_label_ocr_text_raw: "\<exists>r. verify_label fd ocr = Inr r \<and> ocr_text r = ocr"
  using verify_label_shape[of fd ocr] by auto

theorem verify_label_ocr_text_raw_witness:
  "\<exists>r. verify_label example_form example_ocr_no_warning = Inr r
       \<and> ocr_text r = example_ocr_no_warning
       \<and> ocr_text r \<noteq> normalize_text example_ocr_no_warning"
proof -
  have "normalize_text example_ocr_no_warning \<noteq> example_ocr_no_warning" by code_simp
  with verify_label_ocr_text_raw[of example_form example_ocr_no_warning]
  show ?thesis by auto
qed

section \<open>The pattern of the ABV check\<close>

lemma replace_percent: "replace ''%'' [] s = filter (\<lambda>c. c \<noteq> CHR ''%'') s"
  by (induction s) auto

lemma abv_clean_filter: "abv_clean abv = strip (filter (\<lambda>c. c \<noteq> CHR ''%'') (strip abv))"
  by (simp add: abv_clean_def replace_percent)

lemma strip_subset: "set (strip s) \<subseteq> set s"
  using strip_decomp[of s] by (metis Un_upper1 Un_upper2 set_append subset_trans)

lemma abv_clean_no_percent: "CHR ''%'' \<notin> set (abv_clean abv)"
  using strip_subset[of "filter (\<lambda>c. c \<noteq> CHR ''%'') (strip abv)"]
  by (auto simp: abv_clean_filter)

lemma filter_only_last:
  assumes "x \<notin> set (butlast s)"
  shows "filter (\<lambda>c. c \<noteq> x) s = (if s \<noteq> [] \<and> last s = x then butlast s else s)"
proof (cases "s = []")
  case True
  then show ?thesis by simp
next
  case False
  then have s: "s = butlast s @ [last s]" by simp
  have "filter (\<lambda>c. c \<noteq> x) (butlast s) = butlast s"
    using assms by (simp add: filter_id_conv) blast
  then have "filter (\<lambda>c. c \<noteq> x) (butlast s @ [last s])
             = butlast s @ (if last s \<noteq> x then [last s] else [])"
    by simp
  with s False show ?thesis by (metis append_Nil2)
qed

lemma rmatch_re_escape:
  "rmatch False (re_escape w) (pre, rest, g)
     = (if prefix w rest then [(pre @ w, drop (length w) rest, g)] else [])"
proof (induction w arbitrary: pre rest)
  case Nil
  then show ?case by (simp add: re_escape_def)
next
  case (Cons c w)
  have "re_escape (c # w) = Seq (Atom (Lit c)) (re_escape w)" by (simp add: re_escape_def)
  then show ?case using Cons by (cases rest) auto
qed

text \<open>
  Claim C7, as amended. For every ABV input, the pattern of the check is built from the
  input with surrounding whitespace trimmed, every percent sign removed (a trailing one
  and any other), and the result trimmed again; all other characters are kept in their
  order and stand for themselves in the numeric part of the pattern, which therefore
  matches that text and nothing else. When the trimmed input has no percent sign before
  its last character, this is the input with only a trailing percent sign removed.
\<close>

theorem abv_pattern_removes_every_percent:
  "abv_clean abv = strip (filter (\<lambda>c. c \<noteq> CHR ''%'') (strip abv))
   \<and> CHR ''%'' \<notin> set (abv_clean abv)
   \<and> abv_pattern abv =
       Seq WordB
         (Seq (re_escape (strip (filter (\<lambda>c. c \<noteq> CHR ''%'') (strip abv))))
            (Seq (Opt (Seq (Atom (Lit CHR ''.'')) (Atom (Lit CHR ''0''))))
               (Seq (Star Space) (Atom (Lit CHR ''%'')))))
   \<and> rmatch False (re_escape (abv_clean abv)) (pre, rest, g)
       = (if prefix (abv_clean abv) rest
          then [(pre @ abv_clean abv, drop (length (abv_clean abv)) rest, g)] else [])
   \<and> (CHR ''%'' \<notin> set (butlast (strip abv)) \<longrightarrow> abv_clean abv = spec_abv_clean abv)"
  using abv_clean_no_percent[of abv] filter_only_last[of "CHR ''%''" "strip abv"]
  by (simp add: abv_pattern_def abv_clean_filter rmatch_re_escape spec_abv_clean_def Let_def)

theorem abv_pattern_removes_every_percent_witness:
  "CHR ''%'' \<notin> set (butlast (strip '' 45% ''))
   \<and> abv_clean '' 45% '' = spec_abv_clean '' 45% ''
   \<and> spec_abv_clean '' 45% '' = ''45''
   \<and> abv_clean ''4%5'' = ''45''"
proof -
  have 1: "CHR ''%'' \<notin> set (butlast (strip '' 45% ''))" by code_simp
  have 2: "spec_abv_clean '' 45% '' = ''45''" by code_simp
  have 3: "strip (filter (\<lambda>c. c \<noteq> CHR ''%'') (strip ''4%5'')) = ''45''" by code_simp
  from 1 abv_pattern_removes_every_percent[of "'' 45% ''" "[]" "[]" Map.empty]
  have 4: "abv_clean '' 45% '' = spec_abv_clean '' 45% ''" by blast
  from abv_pattern_removes_every_percent[of "''4%5''" "[]" "[]" Map.empty]
  have "abv_clean ''4%5'' = strip (filter (\<lambda>c. c \<noteq> CHR ''%'') (strip ''4%5''))" by blast
  with 3 have 5: "abv_clean ''4%5'' = ''45''" by simp
  from 1 2 4 5 show ?thesis by blast
qed

text \<open>
  The claim as it was stated fails: for the input \<open>4%5\<close> the percent sign is not
  trailing and is removed all the same, so that the check accepts the text \<open>45%\<close>.
\<close>

theorem abv_pattern_trailing_percent_counterexample:
  "abv_clean ''4%5'' = ''45'' \<and> spec_abv_clean ''4%5'' = ''4%5''
   \<and> abv_clean ''4%5'' \<noteq> spec_abv_clean ''4%5''
   \<and> match (check_abv ''4%5'' ''45%'')"
  by code_simp

section \<open>Net contents and the left end of the number\<close>

lemma volume_750_ml:
  "map_option (\<lambda>m. (groups m 1, groups m 2)) (re_search False volume_regex (normalize_text ''750 ml''))
     = Some (Some ''750'', Some ''ml'')"
  by code_simp

lemma strip_ml: "strip ''ml'' = ''ml''"
  by code_simp

lemma match_at_750ml:
  "match_at True (net_pattern ''750'' ''ml'') pre (''750ml'' @ post) \<noteq> None"
  by (simp add: match_at_def net_pattern_def number_pattern_def re_escape_def is_space_def
      whitespace_chars_def)

lemma net_750_ml_anywhere:
  "\<exists>r. check_net_contents ''750 ml'' (pre @ ''750ml'' @ post) = Inr r \<and> match r"
proof -
  from volume_750_ml obtain m where
    m: "re_search False volume_regex (normalize_text ''750 ml'') = Some m"
      "groups m 1 = Some ''750''" "groups m 2 = Some ''ml''"
    by auto
  from re_search_SomeI[OF match_at_750ml, of pre post] obtain m' where
    "re_search True (net_pattern ''750'' ''ml'') (pre @ ''750ml'' @ post) = Some m'"
    by auto
  with m show ?thesis
    by (simp add: check_net_contents_def Let_def strip_ml)
qed

text \<open>
  Claim C8. The net-contents pattern is not anchored on the left of its number: for the
  input \<open>750 ml\<close> the check matches \<open>750ml\<close> whatever stands before it, so it
  matches the text \<open>1750ml\<close>, in which \<open>750\<close> occurs only as the end of the
  longer number, and reports \<open>750ml\<close> as found; the ABV check for \<open>45\<close>
  rejects the text \<open>145%\<close>.
\<close>

theorem net_contents_not_anchored:
  "(\<exists>r. check_net_contents ''750 ml'' (pre @ ''750ml'' @ post) = Inr r \<and> match r)
   \<and> (\<exists>r. check_net_contents ''750 ml'' ''1750ml'' = Inr r \<and> match r \<and> found r = Some ''750ml'')
   \<and> takeWhile is_digit ''1750ml'' = ''1750'' \<and> strict_suffix ''750'' ''1750''
   \<and> \<not> match (check_abv ''45'' ''145%'')"
proof -
  have 1: "case check_net_contents ''750 ml'' ''1750ml'' of
             Inl x \<Rightarrow> False | Inr r \<Rightarrow> match r \<and> found r = Some ''750ml''"
    by code_simp
  have 2: "takeWhile is_digit ''1750ml'' = ''1750'' \<and> strict_suffix ''750'' ''1750''
           \<and> \<not> match (check_abv ''45'' ''145%'')"
    by code_simp
  from 1 2 net_750_ml_anywhere[of pre post] show ?thesis by (auto split: sum.splits)
qed

theorem net_contents_not_anchored_witness:
  "\<exists>r. check_net_contents ''750 ml'' (''lot 1'' @ ''750ml'' @ '' glass'') = Inr r \<and> match r"
  using net_contents_not_anchored[of "''lot 1''" "'' glass''"] by blast

section \<open>Text extraction never raises\<close>







section \<open>The temporary file of a request\<close>

lemma form_get_upd:
  "form_get (m(k \<mapsto> v)) k' = (if k' = k then v else form_get m k')"
  by (simp add: form_get_def)

lemma verify_valid:
  assumes "passes_validation req"
  shows "verify env req fs =
           (case verify_try_block env (stripped_form req) (temp_path env req) fs of
              (Inr resp, fs') \<Rightarrow> (Inr resp, fs')
            | (Inl (Exc cls msg), fs') \<Rightarrow>
                (case remove_if_exists env (temp_path env req) fs' of
                   (Some e, fs'') \<Rightarrow> (Inl e, fs'')
                 | (None, fs'') \<Rightarrow>
                     (Inr (ErrorBody (Some (''Server error: '' @ msg)), 500), fs'')))"
proof -
  from assms obtain filename where
    f: "image_filename req = Some filename" "filename \<noteq> []" "allowed_file filename"
    and g: "strip (form_get (form req) ''brand_name'') \<noteq> []"
      "strip (form_get (form req) ''product_type'') \<noteq> []"
      "strip (form_get (form req) ''abv'') \<noteq> []"
    by (auto simp: passes_validation_def split: option.splits)
  have tp: "temp_path env req = path_join env (gettempdir env) (secure_filename env filename)"
    by (simp add: temp_path_def f)
  show ?thesis
    unfolding tp stripped_form_def
    by (simp add: verify_def f g Let_def form_get_upd)
qed

text \<open>
  The three ways out of the \<open>try\<close> statement. When the text extraction reports a
  failure, \<open>verify\<close> answers 500 and the file system is the one that \<open>file.save\<close>
  left: nothing is removed.
\<close>

lemma verify_ocr_failure_keeps_file:
  assumes "passes_validation req"
    and "file_save env (temp_path env req) fs = (None, fs1)"
    and "extract_text_from_image (ocr_env_of env fs1) (temp_path env req) = Inr res"
    and "\<not> success res"
  shows "verify env req fs = (Inr (ErrorBody (error_out res), 500), fs1)"
  using assms(2-) by (simp add: verify_valid[OF assms(1)] verify_try_block_def)

text \<open>
  On the other two ways out the temporary file is removed, as long as \<open>os.remove\<close>
  does what it is asked to.
\<close>

lemma verify_success_removes_file:
  assumes "passes_validation req"
    and "file_save env (temp_path env req) fs = (None, fs1)"
    and "extract_text_from_image (ocr_env_of env fs1) (temp_path env req) = Inr res"
    and "success res"
    and "os_remove env (temp_path env req) fs1 = (None, fs1 - {temp_path env req})"
  shows "temp_path env req \<notin> snd (verify env req fs)"
proof -
  obtain r where "verify_label (stripped_form req) (text_out res) = Inr r"
    using verify_label_shape by blast
  with assms(2-) show ?thesis
    by (simp add: verify_valid[OF assms(1)] verify_try_block_def remove_if_exists_def)
qed

lemma verify_exception_removes_file:
  assumes "passes_validation req"
    and "verify_try_block env (stripped_form req) (temp_path env req) fs = (Inl e, fs1)"
    and "os_remove env (temp_path env req) fs1 = (None, fs1 - {temp_path env req})"
  shows "temp_path env req \<notin> snd (verify env req fs)"
proof -
  obtain cls msg where "e = Exc cls msg" by (cases e) auto
  with assms(2,3) show ?thesis
    by (simp add: verify_valid[OF assms(1)] remove_if_exists_def)
qed

text \<open>
  Claim C5 does not hold of the code. For the example request, which passes validation,
  with a file system that starts empty, a \<open>file.save\<close> that creates the file and a
  recognizer that finds no text, \<open>verify\<close> answers 500 with the message of the text
  extraction and the temporary file \<open>/tmp/label.png\<close> is still there afterwards.
  When the recognizer finds the text of the label, no file is left.
\<close>

theorem verify_ocr_failure_leaves_temp_file:
  "passes_validation example_request
   \<and> verify (example_app_env (Inr [])) example_request {}
       = (Inr (ErrorBody (Some no_text_error), 500), {''/tmp/label.png''})
   \<and> snd (verify (example_app_env (Inr example_ocr_no_warning)) example_request {}) = {}"
proof -
  let ?env = "example_app_env (Inr [])"
  have pv: "passes_validation example_request" by code_simp
  have tp: "temp_path ?env example_request = ''/tmp/label.png''"
    by (simp add: temp_path_def example_app_env_def example_request_def)
  have sv: "file_save ?env (temp_path ?env example_request) {} = (None, {''/tmp/label.png''})"
    by (simp add: tp) (simp add: example_app_env_def)
  have ex: "extract_text_from_image (ocr_env_of ?env {''/tmp/label.png''})
              (temp_path ?env example_request)
            = Inr \<lparr>success = False, text_out = [], error_out = Some no_text_error\<rparr>"
    by (simp add: tp) (simp add: extract_text_from_image_def extract_try_block_def
        ocr_env_of_def example_app_env_def preprocess_image_def strip_def)
  have 1: "verify ?env example_request {}
             = (Inr (ErrorBody (Some no_text_error), 500), {''/tmp/label.png''})"
    using verify_ocr_failure_keeps_file[OF pv sv ex] by simp
  have 2: "snd (verify (example_app_env (Inr example_ocr_no_warning)) example_request {}) = {}"
    by code_simp
  from pv 1 2 show ?thesis by blast
qed

end
